theory Spec2Isabelle
  imports Main "HOL-Library.Sublist" "HOL-Library.Multiset" "HOL-Library.AList"
begin

section \<open>Text, paths and the extraction policy\<close>

text \<open>
  A Python \<open>str\<close> is a sequence of Unicode code points; extracted text is modelled as
  a list of code points, so that \<open>len\<close> counts what Python counts. A path is the list of
  its components (\<open>Path.parts\<close>); the empty list is the current directory.
\<close>

type_synonym pystr = "nat list"
type_synonym path = "string list"

text \<open>
  The exceptions that the modelled code can meet. All of them are instances of Python's
  \<open>Exception\<close>; \<open>ExtractorError\<close> stands for whatever a PDF library raises.
\<close>

datatype exn =
    ValueError
  | FileExistsError
  | FileNotFoundError
  | NotADirectoryError
  | IsADirectoryError
  | UnicodeEncodeError
  | ExtractorError string

definition MIN_TEXT_THRESHOLD :: nat where
  "MIN_TEXT_THRESHOLD = 50"

text \<open>\<open>str.isspace\<close> on one code point: the white space that \<open>str.strip()\<close> removes.\<close>

definition isspace :: "nat \<Rightarrow> bool" where
  "isspace c =
     ((9 \<le> c \<and> c \<le> 13) \<or> (28 \<le> c \<and> c \<le> 32) \<or> c = 133 \<or> c = 160 \<or> c = 5760
      \<or> (8192 \<le> c \<and> c \<le> 8202) \<or> c = 8232 \<or> c = 8233 \<or> c = 8239 \<or> c = 8287
      \<or> c = 12288)"

definition strip :: "pystr \<Rightarrow> pystr" where
  "strip t = rev (dropWhile isspace (rev (dropWhile isspace t)))"

text \<open>
  What a worker does that can be observed besides the file system: the calls to the two
  extraction libraries and the log records, in program order.
\<close>

datatype event =
    Called_pymupdf path
  | Called_pypdf path
  | Log_info path
  | Log_error path exn

text \<open>
  \<open>extract_with_pymupdf\<close> and \<open>extract_with_pypdf\<close> wrap the external libraries; each
  returns the text of a document or raises. They are parameters of the model.
\<close>

type_synonym extractor = "path \<Rightarrow> exn + pystr"

definition extract_text :: "extractor \<Rightarrow> extractor \<Rightarrow> path \<Rightarrow> event list \<times> (exn + pystr)" where
  "extract_text extract_with_pymupdf extract_with_pypdf pdf_path =
     (case extract_with_pymupdf pdf_path of
        Inl e \<Rightarrow> ([Called_pymupdf pdf_path], Inl e)
      | Inr text \<Rightarrow>
          if length (strip text) < MIN_TEXT_THRESHOLD
          then ([Called_pymupdf pdf_path, Log_info pdf_path, Called_pypdf pdf_path],
                extract_with_pypdf pdf_path)
          else ([Called_pymupdf pdf_path], Inr text))"


section \<open>Path arithmetic\<close>

text \<open>\<open>str.rfind\<close> of one character: the highest index where it occurs, or \<open>-1\<close>.\<close>

fun rfind :: "char \<Rightarrow> string \<Rightarrow> int" where
  "rfind c [] = - 1"
| "rfind c (x # xs) =
     (let r = rfind c xs in if 0 \<le> r then r + 1 else if x = c then 0 else - 1)"

text \<open>
  \<open>PurePath.suffix\<close>: the part of the name from its last dot on, unless that dot
  is the first or the last character of the name.
\<close>

definition suffix_of :: "string \<Rightarrow> string" where
  "suffix_of name =
     (let i = rfind CHR ''.'' name
      in if 0 < i \<and> i < int (length name) - 1 then drop (nat i) name else [])"

text \<open>
  \<open>PurePath.with_suffix\<close> on a relative path: a path without a name is refused, a name
  without a suffix gets the new one appended, otherwise the old suffix is cut off first.
\<close>

definition with_suffix :: "path \<Rightarrow> string \<Rightarrow> exn + path" where
  "with_suffix p sfx =
     (if CHR ''/'' \<in> set sfx then Inl ValueError
      else if (sfx \<noteq> [] \<and> \<not> prefix ''.'' sfx) \<or> sfx = ''.'' then Inl ValueError
      else if p = [] then Inl ValueError
      else let name = last p; old_suffix = suffix_of name
           in if old_suffix = [] then Inr (butlast p @ [name @ sfx])
              else Inr (butlast p @ [take (length name - length old_suffix) name @ sfx]))"

text \<open>\<open>PurePath.relative_to\<close>: the components left after the other path, which must lead them.\<close>

fun relative_to :: "path \<Rightarrow> path \<Rightarrow> exn + path" where
  "relative_to p [] = Inr p"
| "relative_to [] (r # rs) = Inl ValueError"
| "relative_to (x # xs) (r # rs) = (if x = r then relative_to xs rs else Inl ValueError)"

section \<open>The file system\<close>

text \<open>
  The file system is a table from paths to nodes. A regular file holds the text written
  to it; the current directory \<open>[]\<close> always exists. Permissions, symbolic links and
  devices are outside the model.
\<close>

datatype node = File pystr | Dir

type_synonym fs = "(path \<times> node) list"

definition node_at :: "fs \<Rightarrow> path \<Rightarrow> node option" where
  "node_at fs p = (if p = [] then Some Dir else map_of fs p)"

definition path_exists :: "fs \<Rightarrow> path \<Rightarrow> bool" where
  "path_exists fs p = (node_at fs p \<noteq> None)"

definition is_dir :: "fs \<Rightarrow> path \<Rightarrow> bool" where
  "is_dir fs p = (node_at fs p = Some Dir)"

definition is_file :: "fs \<Rightarrow> path \<Rightarrow> bool" where
  "is_file fs p = (case node_at fs p of Some (File _) \<Rightarrow> True | _ \<Rightarrow> False)"

definition put :: "fs \<Rightarrow> path \<Rightarrow> node \<Rightarrow> fs" where
  "put fs p n = AList.update p n fs"

text \<open>\<open>os.mkdir\<close>: one directory, whose parent must be there.\<close>

definition os_mkdir :: "fs \<Rightarrow> path \<Rightarrow> fs \<times> exn option" where
  "os_mkdir fs p =
     (if path_exists fs p then (fs, Some FileExistsError)
      else case node_at fs (butlast p) of
             None \<Rightarrow> (fs, Some FileNotFoundError)
           | Some (File _) \<Rightarrow> (fs, Some NotADirectoryError)
           | Some Dir \<Rightarrow> (put fs p Dir, None))"

text \<open>
  \<open>Path.mkdir(parents, exist_ok)\<close>, as pathlib writes it: try \<open>os.mkdir\<close>; when the
  parent is missing, make the parent and try once more without \<open>parents\<close>; any other
  error is forgiven when \<open>exist_ok\<close> is set and the path is a directory already.
\<close>

function mkdir :: "fs \<Rightarrow> path \<Rightarrow> bool \<Rightarrow> bool \<Rightarrow> fs \<times> exn option" where
  "mkdir fs p parents exist_ok =
     (case os_mkdir fs p of
        (fs1, None) \<Rightarrow> (fs1, None)
      | (fs1, Some FileNotFoundError) \<Rightarrow>
          if \<not> parents \<or> butlast p = p then (fs1, Some FileNotFoundError)
          else (case mkdir fs1 (butlast p) True True of
                  (fs2, Some e) \<Rightarrow> (fs2, Some e)
                | (fs2, None) \<Rightarrow> mkdir fs2 p False exist_ok)
      | (fs1, Some e) \<Rightarrow>
          if \<not> exist_ok \<or> \<not> is_dir fs1 p then (fs1, Some e) else (fs1, None))"
  by pat_completeness auto
termination
  by (relation "measures [\<lambda>(fs, p, parents, ok). length p,
                          \<lambda>(fs, p, parents, ok). if parents then 1 else 0]")
     (auto simp: butlast_conv_take)

declare mkdir.simps [simp del]

text \<open>
  \<open>str.encode("utf-8")\<close> refuses the surrogate code points U+D800 to U+DFFF, which a
  Python string may hold.
\<close>

definition utf8_encodable :: "pystr \<Rightarrow> bool" where
  "utf8_encodable t = list_all (\<lambda>c. c < 55296 \<or> 57343 < c) t"

text \<open>
  \<open>Path.write_text(text, encoding="utf-8")\<close>: open the file for writing, which creates
  or empties it, then encode and write the text. When the text cannot be encoded the
  file stays behind empty.
\<close>

definition write_text :: "fs \<Rightarrow> path \<Rightarrow> pystr \<Rightarrow> fs \<times> exn option" where
  "write_text fs p t =
     (case node_at fs p of
        Some Dir \<Rightarrow> (fs, Some IsADirectoryError)
      | _ \<Rightarrow>
          (case node_at fs (butlast p) of
             None \<Rightarrow> (fs, Some FileNotFoundError)
           | Some (File _) \<Rightarrow> (fs, Some NotADirectoryError)
           | Some Dir \<Rightarrow>
               if utf8_encodable t then (put fs p (File t), None)
               else (put fs p (File []), Some UnicodeEncodeError)))"

section \<open>The worker\<close>

datatype outcome = Success | Failed | Skipped

text \<open>The argument tuple: \<open>(pdf_path, input_root, output_root, overwrite, skip_existing)\<close>.\<close>

type_synonym work_item = "path \<times> path \<times> path \<times> bool \<times> bool"

text \<open>The first two statements of the worker: where the text of a document goes.\<close>

definition output_path :: "path \<Rightarrow> path \<Rightarrow> path \<Rightarrow> exn + path" where
  "output_path pdf_path input_root output_root =
     (case relative_to pdf_path input_root of
        Inl e \<Rightarrow> Inl e
      | Inr relative \<Rightarrow>
          (case with_suffix relative ''.txt'' of
             Inl e \<Rightarrow> Inl e
           | Inr renamed \<Rightarrow> Inr (output_root @ renamed)))"

text \<open>
  \<open>process_file\<close>: everything happens inside one \<open>try\<close>, and every exception ends in a
  log record and the result \<open>"failed"\<close>. The file system comes back as the worker left it.
\<close>

definition process_file :: "extractor \<Rightarrow> extractor \<Rightarrow> fs \<Rightarrow> work_item \<Rightarrow> fs \<times> event list \<times> outcome" where
  "process_file extract_with_pymupdf extract_with_pypdf fs args =
     (case args of (pdf_path, input_root, output_root, overwrite, skip_existing) \<Rightarrow>
        (case output_path pdf_path input_root output_root of
           Inl e \<Rightarrow> (fs, [Log_error pdf_path e], Failed)
         | Inr output_file \<Rightarrow>
             if skip_existing \<and> path_exists fs output_file then (fs, [], Skipped)
             else if path_exists fs output_file \<and> \<not> overwrite then (fs, [], Skipped)
             else
               (case extract_text extract_with_pymupdf extract_with_pypdf pdf_path of
                  (evs, Inl e) \<Rightarrow> (fs, evs @ [Log_error pdf_path e], Failed)
                | (evs, Inr text) \<Rightarrow>
                    (case mkdir fs (butlast output_file) True True of
                       (fs1, Some e) \<Rightarrow> (fs1, evs @ [Log_error pdf_path e], Failed)
                     | (fs1, None) \<Rightarrow>
                         (case write_text fs1 output_file text of
                            (fs2, Some e) \<Rightarrow> (fs2, evs @ [Log_error pdf_path e], Failed)
                          | (fs2, None) \<Rightarrow> (fs2, evs, Success))))))"

section \<open>The batch coordinator\<close>

text \<open>
  \<open>input_dir.rglob("*.pdf")\<close>: every path below the directory whose name ends in
  \<open>.pdf\<close> and which is reached through directories only; nothing when the root is not
  a directory. Matching is case-sensitive, and a name that is just \<open>.pdf\<close> matches.
\<close>

definition fnmatch_pdf :: "string \<Rightarrow> bool" where
  "fnmatch_pdf name = suffix ''.pdf'' name"

definition rglob_pdf :: "fs \<Rightarrow> path \<Rightarrow> path list" where
  "rglob_pdf fs d =
     (if is_dir fs d
      then remdups
             (filter (\<lambda>p. strict_prefix d p \<and> fnmatch_pdf (last p) \<and>
                           list_all (\<lambda>q. length q < length d \<or> q = p \<or> is_dir fs q)
                             (prefixes p))
                (map fst fs))
      else [])"

text \<open>
  \<open>pool.imap_unordered\<close> hands the results back in the order in which the tasks finish.
  The pool is modelled by the list of its choices: each number picks, among the tasks
  still pending, the one that finishes next. Every task finishes exactly once, and a task
  acts on the file system in one step; real workers overlap, which shows only when two
  inputs share one output path (\<open>.pdf\<close> and \<open>.pdf.pdf\<close> in one directory).
\<close>

fun completion_order :: "nat list \<Rightarrow> 'a list \<Rightarrow> 'a list" where
  "completion_order [] xs = xs"
| "completion_order (c # cs) [] = []"
| "completion_order (c # cs) (x # xs) =
     (let i = c mod length (x # xs)
      in (x # xs) ! i # completion_order cs (take i (x # xs) @ drop (Suc i) (x # xs)))"

text \<open>The dictionary \<open>results\<close>, keyed by the three result tags.\<close>

type_synonym results = "outcome \<Rightarrow> nat"

text \<open>The loop that drains the pool: \<open>results[result] += 1\<close> for each task.\<close>

fun run_tasks :: "extractor \<Rightarrow> extractor \<Rightarrow> fs \<Rightarrow> work_item list \<Rightarrow> results
                    \<Rightarrow> fs \<times> event list \<times> results" where
  "run_tasks extract_with_pymupdf extract_with_pypdf fs [] results = (fs, [], results)"
| "run_tasks extract_with_pymupdf extract_with_pypdf fs (a # as) results =
     (case process_file extract_with_pymupdf extract_with_pypdf fs a of
        (fs1, evs, result) \<Rightarrow>
          (case run_tasks extract_with_pymupdf extract_with_pypdf fs1 as
                  (results(result := results result + 1)) of
             (fs2, evs', results') \<Rightarrow> (fs2, evs @ evs', results')))"

text \<open>The summary block that the coordinator prints when the run is over.\<close>

record summary =
  total :: nat
  success :: nat
  skipped :: nat
  failed :: nat

text \<open>
  \<open>process_directory\<close> of the parallel converter. With no matching file it prints a
  notice and returns before the counters and the pool exist: no summary. Otherwise
  \<open>mp.Pool(processes=workers)\<close> refuses a worker count below one with \<open>ValueError\<close>,
  which nothing catches.
\<close>

definition process_directory :: "extractor \<Rightarrow> extractor \<Rightarrow> nat list \<Rightarrow> fs \<Rightarrow> path \<Rightarrow> path \<Rightarrow> int
      \<Rightarrow> bool \<Rightarrow> bool \<Rightarrow> exn + fs \<times> event list \<times> summary option" where
  "process_directory extract_with_pymupdf extract_with_pypdf choices fs input_dir output_dir
       workers overwrite skip_existing =
     (let pdf_files = rglob_pdf fs input_dir;
          total = length pdf_files
      in if total = 0 then Inr (fs, [], None)
         else
           let args = map (\<lambda>pdf. (pdf, input_dir, output_dir, overwrite, skip_existing)) pdf_files;
               results = (\<lambda>_. 0)
           in if workers < 1 then Inl ValueError
              else
                (case run_tasks extract_with_pymupdf extract_with_pypdf fs
                        (completion_order choices args) results of
                   (fs', evs, results') \<Rightarrow>
                     Inr (fs', evs,
                          Some \<lparr>total = total, success = results' Success,
                                skipped = results' Skipped, failed = results' Failed\<rparr>)))"

section \<open>The entry points\<close>

text \<open>How a call ends: \<open>sys.exit\<close> with a status, an uncaught exception, or a return.\<close>

datatype 'a ending = Exit nat | Raised exn | Returned 'a

text \<open>
  \<open>main\<close> of the parallel converter after argument parsing, without the interactive
  mode: \<open>input\<close> and \<open>output\<close> are the two options, \<open>None\<close> when missing or empty.
\<close>

definition main :: "extractor \<Rightarrow> extractor \<Rightarrow> nat list \<Rightarrow> fs \<Rightarrow> path option \<Rightarrow> path option \<Rightarrow> int
      \<Rightarrow> bool \<Rightarrow> bool \<Rightarrow> (fs \<times> event list \<times> summary option) ending" where
  "main extract_with_pymupdf extract_with_pypdf choices fs input output workers overwrite
       skip_existing =
     (case (input, output) of
        (Some input_dir, Some output_dir) \<Rightarrow>
          if \<not> path_exists fs input_dir then Exit 1
          else
            (case mkdir fs output_dir True True of
               (fs1, Some e) \<Rightarrow> Raised e
             | (fs1, None) \<Rightarrow>
                 (case process_directory extract_with_pymupdf extract_with_pypdf choices fs1
                         input_dir output_dir workers overwrite skip_existing of
                    Inl e \<Rightarrow> Raised e
                  | Inr r \<Rightarrow> Returned r))
      | _ \<Rightarrow> Exit 1)"

text \<open>\<open>str.lower\<close> on the letters A to Z, which is all that the answer \<open>y\<close> needs.\<close>

definition lower :: "string \<Rightarrow> string" where
  "lower s =
     map (\<lambda>c. if (65::nat) \<le> of_char c \<and> of_char c \<le> (90::nat)
              then char_of (of_char c + (32::nat)) else c) s"

text \<open>
  \<open>interactive_mode\<close> of the same program, which checks its input directory itself.
  \<open>create\<close> is the answer, as typed, to the question whether a missing output directory
  is to be made, \<open>workers\<close> the number typed in.
\<close>

definition interactive_mode :: "extractor \<Rightarrow> extractor \<Rightarrow> nat list \<Rightarrow> fs \<Rightarrow> path \<Rightarrow> path \<Rightarrow> string
      \<Rightarrow> int \<Rightarrow> (fs \<times> event list \<times> summary option) ending" where
  "interactive_mode extract_with_pymupdf extract_with_pypdf choices fs input_dir output_dir
       create workers =
     (if \<not> path_exists fs input_dir \<or> \<not> is_dir fs input_dir then Exit 1
      else
        (case (if \<not> path_exists fs output_dir
               then (if lower create = ''y'' then Returned (mkdir fs output_dir True True)
                     else Exit 0)
               else Returned (fs, None)) of
           Exit n \<Rightarrow> Exit n
         | Raised e \<Rightarrow> Raised e
         | Returned (fs1, Some e) \<Rightarrow> Raised e
         | Returned (fs1, None) \<Rightarrow>
             (case process_directory extract_with_pymupdf extract_with_pypdf choices fs1
                     input_dir output_dir workers False True of
                Inl e \<Rightarrow> Raised e
              | Inr r \<Rightarrow> Returned r)))"

text \<open>
  The sequential converter, \<open>pdf_to_text.py\<close>. Its loop extracts first, then maps the
  path and writes; every exception of one file is logged and the loop goes on.
\<close>

fun pdf_to_text_loop :: "extractor \<Rightarrow> extractor \<Rightarrow> fs \<Rightarrow> path \<Rightarrow> path \<Rightarrow> path list
      \<Rightarrow> fs \<times> event list" where
  "pdf_to_text_loop extract_with_pymupdf extract_with_pypdf fs input_dir output_dir [] = (fs, [])"
| "pdf_to_text_loop extract_with_pymupdf extract_with_pypdf fs input_dir output_dir
       (pdf_file # rest) =
     (case
        (case extract_text extract_with_pymupdf extract_with_pypdf pdf_file of
           (evs, Inl e) \<Rightarrow> (fs, evs @ [Log_error pdf_file e])
         | (evs, Inr text) \<Rightarrow>
             (case output_path pdf_file input_dir output_dir of
                Inl e \<Rightarrow> (fs, evs @ [Log_error pdf_file e])
              | Inr output_file \<Rightarrow>
                  (case mkdir fs (butlast output_file) True True of
                     (fs1, Some e) \<Rightarrow> (fs1, evs @ [Log_error pdf_file e])
                   | (fs1, None) \<Rightarrow>
                       (case write_text fs1 output_file text of
                          (fs2, Some e) \<Rightarrow> (fs2, evs @ [Log_error pdf_file e])
                        | (fs2, None) \<Rightarrow> (fs2, evs)))))
      of (fs', evs) \<Rightarrow>
        (case pdf_to_text_loop extract_with_pymupdf extract_with_pypdf fs' input_dir output_dir
                rest of
           (fs'', evs') \<Rightarrow> (fs'', evs @ evs')))"

definition pdf_to_text_process_directory :: "extractor \<Rightarrow> extractor \<Rightarrow> fs \<Rightarrow> path \<Rightarrow> path
      \<Rightarrow> (fs \<times> event list) ending" where
  "pdf_to_text_process_directory extract_with_pymupdf extract_with_pypdf fs input_dir output_dir =
     (if \<not> path_exists fs input_dir then Exit 1
      else if \<not> is_dir fs input_dir then Exit 1
      else
        (case mkdir fs output_dir True True of
           (fs1, Some e) \<Rightarrow> Raised e
         | (fs1, None) \<Rightarrow>
             Returned (pdf_to_text_loop extract_with_pymupdf extract_with_pypdf fs1 input_dir
                         output_dir (rglob_pdf fs1 input_dir))))"

section \<open>Predicates of the statements\<close>

text \<open>
  \<open>grown fs fs' p\<close>: the second table is the first one, except that some paths
  leading to \<open>p\<close> that were absent are directories now.
\<close>

definition grown :: "fs \<Rightarrow> fs \<Rightarrow> path \<Rightarrow> bool" where
  "grown fs fs' p \<longleftrightarrow>
     (\<forall>q. node_at fs' q = node_at fs q
          \<or> (node_at fs q = None \<and> node_at fs' q = Some Dir \<and> prefix q p))"

section \<open>A sample tree\<close>

text \<open>
  A small input tree for concrete runs: two documents, one of them below a
  subdirectory, and a file that is no document. The first library fails on
  \<open>in/b.pdf\<close> and finds next to nothing elsewhere; the second always finds two letters.
\<close>

definition sample_fs :: fs where
  "sample_fs =
     [([''in''], Dir),
      ([''in'', ''a''], Dir),
      ([''in'', ''a'', ''doc.pdf''], File [37, 80, 68, 70]),
      ([''in'', ''b.pdf''], File [37, 80, 68, 70]),
      ([''in'', ''notes.txt''], File [104, 105])]"

definition sample_pymupdf :: extractor where
  "sample_pymupdf p =
     (if p = [''in'', ''b.pdf''] then Inl (ExtractorError ''broken'')
      else Inr [32, 72, 105, 10])"

definition sample_pypdf :: extractor where
  "sample_pypdf p = Inr [79, 75]"

definition sample_done_fs :: fs where
  "sample_done_fs =
     sample_fs @
     [([''out''], Dir),
      ([''out'', ''a''], Dir),
      ([''out'', ''a'', ''doc.txt''], File [111, 108, 100]),
      ([''out'', ''b.txt''], File [111, 108, 100])]"



lemma rglob_sample:
  "rglob_pdf sample_fs [''in''] = [[''in'', ''a'', ''doc.pdf''], [''in'', ''b.pdf'']]"
  by code_simp

section \<open>The extraction policy\<close>

lemma extract_text_cases:
  "extract_text A B p =
     (case A p of
        Inl e \<Rightarrow> ([Called_pymupdf p], Inl e)
      | Inr t \<Rightarrow>
          if length (strip t) < 50
          then ([Called_pymupdf p, Log_info p, Called_pypdf p], B p)
          else ([Called_pymupdf p], Inr t))"
  by (simp add: extract_text_def MIN_TEXT_THRESHOLD_def split: sum.split)

text \<open>
  Claim C4. \<open>extract_text\<close> calls the primary library first and exactly once. The
  fallback library is called if and only if the primary one returned a text whose
  stripped length is below 50, and then at most once; its result is then the result,
  whatever its length. A primary text of stripped length 50 or more is returned as it is.
\<close>

theorem extract_text_fallback_policy:
  "hd (fst (extract_text A B p)) = Called_pymupdf p
   \<and> count_list (fst (extract_text A B p)) (Called_pymupdf p) = 1
   \<and> count_list (fst (extract_text A B p)) (Called_pypdf p) \<le> 1
   \<and> (Called_pypdf p \<in> set (fst (extract_text A B p))
        \<longleftrightarrow> (\<exists>t. A p = Inr t \<and> length (strip t) < 50))
   \<and> (\<forall>t. A p = Inr t \<longrightarrow>
          (length (strip t) < 50 \<longrightarrow> snd (extract_text A B p) = B p)
        \<and> (50 \<le> length (strip t) \<longrightarrow> snd (extract_text A B p) = Inr t))"
  by (cases "A p") (auto simp: extract_text_cases)

theorem extract_text_fallback_policy_witness:
  "snd (extract_text (\<lambda>p. Inr [32, 72, 105, 10]) (\<lambda>p. Inr [79, 75]) [''in'', ''doc.pdf''])
     = Inr [79, 75]
   \<and> Called_pypdf [''in'', ''doc.pdf'']
       \<in> set (fst (extract_text (\<lambda>p. Inr [32, 72, 105, 10]) (\<lambda>p. Inr [79, 75])
                  [''in'', ''doc.pdf'']))"
proof -
  have short: "length (strip [32, 72, 105, 10]) < 50"
    by (simp add: strip_def isspace_def)
  from extract_text_fallback_policy
         [of "\<lambda>p. Inr [32, 72, 105, 10]" "\<lambda>p. Inr [79, 75]" "[''in'', ''doc.pdf'']"] short
  show ?thesis by blast
qed

section \<open>Counting the results\<close>

lemma length_completion_order: "length (completion_order cs xs) = length xs"
  by (induction cs xs rule: completion_order.induct) (auto simp: Let_def)



lemma run_tasks_counts:
  "run_tasks A B fs xs r = (fs', evs, r') \<Longrightarrow>
     r' Success + r' Skipped + r' Failed = r Success + r Skipped + r Failed + length xs"
proof (induction xs arbitrary: fs r fs' evs r')
  case Nil
  then show ?case by simp
next
  case (Cons a as)
  obtain fs1 ev res where pf: "process_file A B fs a = (fs1, ev, res)"
    by (cases "process_file A B fs a") auto
  obtain fs2 evs2 r2 where rt: "run_tasks A B fs1 as (r(res := r res + 1)) = (fs2, evs2, r2)"
    by (cases "run_tasks A B fs1 as (r(res := r res + 1))") auto
  from Cons.prems pf rt have "r' = r2" by simp
  moreover from Cons.IH[OF rt]
  have "r2 Success + r2 Skipped + r2 Failed
          = (r(res := r res + 1)) Success + (r(res := r res + 1)) Skipped
            + (r(res := r res + 1)) Failed + length as" .
  ultimately show ?case by (cases res) simp_all
qed

text \<open>
  Claim C1. A run over a non-empty work list with at least one worker ends with a
  summary, and in every summary that \<open>process_directory\<close> produces \<open>total\<close> is the number
  of files found and equals \<open>success + skipped + failed\<close>: each task raised exactly one
  of the three counters by one.
\<close>

theorem process_directory_counters:
  "(1 \<le> workers \<and> rglob_pdf fs input_dir \<noteq> [] \<longrightarrow>
      (\<exists>fs' evs s. process_directory A B choices fs input_dir output_dir workers overwrite
                      skip_existing = Inr (fs', evs, Some s)))
   \<and> (\<forall>fs' evs s. process_directory A B choices fs input_dir output_dir workers overwrite
                      skip_existing = Inr (fs', evs, Some s) \<longrightarrow>
          total s = length (rglob_pdf fs input_dir)
        \<and> total s = success s + skipped s + failed s)"
proof -
  let ?args = "map (\<lambda>pdf. (pdf, input_dir, output_dir, overwrite, skip_existing))
                 (rglob_pdf fs input_dir)"
  obtain fs1 evs1 r1 where rt:
    "run_tasks A B fs (completion_order choices ?args) (\<lambda>_. 0) = (fs1, evs1, r1)"
    by (cases "run_tasks A B fs (completion_order choices ?args) (\<lambda>_. 0)") auto
  from run_tasks_counts[OF rt]
  have sum: "r1 Success + r1 Skipped + r1 Failed = length (rglob_pdf fs input_dir)"
    by (simp add: length_completion_order)
  show ?thesis
    using rt sum by (auto simp: process_directory_def Let_def)
qed

theorem process_directory_counters_witness:
  "\<exists>fs' evs s.
      process_directory sample_pymupdf sample_pypdf [1] sample_fs [''in''] [''out''] 2 False False
        = Inr (fs', evs, Some s)
      \<and> total s = 2 \<and> success s + skipped s + failed s = 2"
proof -
  have run: "(1::int) \<le> 2 \<and> rglob_pdf sample_fs [''in''] \<noteq> []"
    by (simp add: rglob_sample)
  have n: "length (rglob_pdf sample_fs [''in'']) = 2"
    by (simp add: rglob_sample)
  note c = process_directory_counters
             [of 2 sample_fs "[''in'']" sample_pymupdf sample_pypdf "[1]" "[''out'']" False False]
  from c run obtain fs' evs s where
    r: "process_directory sample_pymupdf sample_pypdf [1] sample_fs [''in''] [''out''] 2 False False
          = Inr (fs', evs, Some s)"
    by blast
  with c n have "total s = 2 \<and> success s + skipped s + failed s = 2"
    by (metis (no_types, lifting))
  with r show ?thesis by blast
qed

section \<open>Paths and directories\<close>

lemma node_at_put:
  "node_at (put fs p n) q = (if q = p \<and> p \<noteq> [] then Some n else node_at fs q)"
  by (simp add: node_at_def put_def update_conv')

lemma path_exists_put:
  "path_exists (put fs p n) q = (q = p \<or> path_exists fs q)"
  by (cases "q = []") (auto simp: path_exists_def node_at_put, simp_all add: node_at_def)

lemma os_mkdir_cases:
  assumes "os_mkdir fs p = (fs', r)"
  shows "(r = Some FileExistsError \<and> fs' = fs \<and> path_exists fs p)
       \<or> (r = Some FileNotFoundError \<and> fs' = fs \<and> \<not> path_exists fs p
            \<and> node_at fs (butlast p) = None)
       \<or> (r = Some NotADirectoryError \<and> fs' = fs \<and> \<not> path_exists fs p
            \<and> (\<exists>t. node_at fs (butlast p) = Some (File t)))
       \<or> (r = None \<and> fs' = put fs p Dir \<and> p \<noteq> [] \<and> \<not> path_exists fs p
            \<and> is_dir fs (butlast p))"
  using assms
  by (auto simp: os_mkdir_def is_dir_def path_exists_def node_at_def
      split: if_splits option.splits node.splits)

lemma rfind_neg: "\<not> 0 \<le> rfind c xs \<Longrightarrow> rfind c xs = - 1"
  by (induction xs) (auto simp: Let_def split: if_splits)

lemma rfind_append:
  "rfind c (xs @ ys) = (if 0 \<le> rfind c ys then int (length xs) + rfind c ys else rfind c xs)"
  by (induction xs) (auto simp: Let_def dest: rfind_neg)

lemma suffix_of_pdf:
  "suffix_of (stem @ ''.pdf'') = (if stem = [] then [] else ''.pdf'')"
  by (simp add: suffix_of_def rfind_append Let_def)

lemma with_suffix_pdf:
  "with_suffix (rel @ [stem @ ''.pdf'']) ''.txt''
     = Inr (rel @ [if stem = [] then ''.pdf.txt'' else stem @ ''.txt''])"
  by (simp add: with_suffix_def suffix_of_pdf Let_def)

lemma relative_to_append: "relative_to (d @ rel) d = Inr rel"
  by (induction d) auto

lemma relative_to_Inr: "relative_to p d = Inr rel \<Longrightarrow> p = d @ rel"
  by (induction p d rule: relative_to.induct) (auto split: if_splits)

lemma output_path_pdf:
  "output_path (input_root @ rel @ [stem @ ''.pdf'']) input_root output_root
     = Inr (output_root @ rel @ [if stem = [] then ''.pdf.txt'' else stem @ ''.txt''])"
  by (simp add: output_path_def relative_to_append with_suffix_pdf)

lemma rglob_pdf_member:
  assumes "p \<in> set (rglob_pdf fs d)"
  shows "\<exists>rel stem. p = d @ rel @ [stem @ ''.pdf'']"
proof -
  from assms have sp: "strict_prefix d p" and m: "fnmatch_pdf (last p)"
    by (auto simp: rglob_pdf_def split: if_splits)
  from sp obtain r where r: "p = d @ r" "r \<noteq> []"
    by (auto simp: strict_prefix_def prefix_def)
  then have "last p = last r" by simp
  with m obtain stem where "last r = stem @ ''.pdf''"
    by (auto simp: fnmatch_pdf_def suffix_def)
  with r have "p = d @ butlast r @ [stem @ ''.pdf'']"
    by (metis append_butlast_last_id)
  then show ?thesis by blast
qed



lemma is_dir_root: "is_dir fs []"
  by (simp add: is_dir_def node_at_def)

lemma path_exists_root: "path_exists fs []"
  by (simp add: path_exists_def node_at_def)

lemma is_dir_exists: "is_dir fs p \<Longrightarrow> path_exists fs p"
  by (simp add: is_dir_def path_exists_def)

lemma mkdir_leaf:
  "mkdir fs p False ok =
     (case os_mkdir fs p of
        (fs1, None) \<Rightarrow> (fs1, None)
      | (fs1, Some e) \<Rightarrow>
          if e = FileNotFoundError then (fs1, Some e)
          else if \<not> ok \<or> \<not> is_dir fs1 p then (fs1, Some e) else (fs1, None))"
  by (subst mkdir.simps) (auto split: prod.splits option.splits exn.splits)

lemma mkdir_parents:
  "mkdir fs p True True =
     (case os_mkdir fs p of
        (fs1, None) \<Rightarrow> (fs1, None)
      | (fs1, Some e) \<Rightarrow>
          if e = FileNotFoundError
          then (if p = [] then (fs1, Some e)
                else (case mkdir fs1 (butlast p) True True of
                        (fs2, Some e') \<Rightarrow> (fs2, Some e')
                      | (fs2, None) \<Rightarrow> mkdir fs2 p False True))
          else if \<not> is_dir fs1 p then (fs1, Some e) else (fs1, None))"
proof (cases "os_mkdir fs p")
  case (Pair fs1 r1)
  show ?thesis
  proof (cases r1)
    case None
    with Pair show ?thesis by (subst mkdir.simps) simp
  next
    case (Some e)
    have bl: "butlast p = p \<longleftrightarrow> p = []"
      by (cases p rule: rev_cases) auto
    from Pair Some show ?thesis
      by (subst mkdir.simps, cases e) (simp_all add: bl)
  qed
qed

lemma grown_refl: "grown fs fs p"
  by (simp add: grown_def)

lemma mkdir_spec:
  "mkdir fs p True True = (fs', r) \<Longrightarrow>
     grown fs fs' p \<and> (r = None \<longrightarrow> is_dir fs' p) \<and> (r \<noteq> None \<longrightarrow> fs' = fs)"
proof (induction p arbitrary: fs fs' r rule: rev_induct)
  case Nil
  have "os_mkdir fs [] = (fs, Some FileExistsError)"
    by (simp add: os_mkdir_def path_exists_root)
  with Nil have "fs' = fs" "r = None"
    by (simp_all add: mkdir_parents[of fs "[]"] is_dir_root)
  then show ?case by (simp add: grown_refl is_dir_root)
next
  case (snoc x xs)
  let ?p = "xs @ [x]"
  obtain fs1 r1 where om: "os_mkdir fs ?p = (fs1, r1)"
    by (cases "os_mkdir fs ?p") auto
  from os_mkdir_cases[OF om]
  consider
    (exists) "r1 = Some FileExistsError" "fs1 = fs" "path_exists fs ?p"
  | (noparent) "r1 = Some FileNotFoundError" "fs1 = fs" "\<not> path_exists fs ?p"
      "node_at fs xs = None"
  | (notdir) "r1 = Some NotADirectoryError" "fs1 = fs" "\<not> path_exists fs ?p"
  | (made) "r1 = None" "fs1 = put fs ?p Dir" "\<not> path_exists fs ?p" "is_dir fs xs"
    by auto
  then show ?case
  proof cases
    case exists
    with snoc.prems om have "fs' = fs" "r = None \<longrightarrow> is_dir fs ?p"
      by (auto simp: mkdir_parents[of fs "xs @ [x]"] split: if_splits)
    then show ?thesis by (simp add: grown_refl)
  next
    case notdir
    then have "\<not> is_dir fs ?p" using is_dir_exists by blast
    with snoc.prems om notdir have "fs' = fs" "r \<noteq> None"
      by (auto simp: mkdir_parents[of fs "xs @ [x]"] split: if_splits)
    then show ?thesis by (auto simp: grown_refl)
  next
    case made
    with snoc.prems om have res: "fs' = put fs ?p Dir" "r = None"
      by (auto simp: mkdir_parents[of fs "xs @ [x]"])
    from made(3) have "node_at fs ?p = None" by (simp add: path_exists_def)
    then have "grown fs fs' ?p"
      unfolding grown_def res by (auto simp: node_at_put)
    moreover have "is_dir fs' ?p" by (simp add: res is_dir_def node_at_put)
    ultimately show ?thesis using res by simp
  next
    case noparent
    obtain fs2 r2 where rec: "mkdir fs xs True True = (fs2, r2)"
      by (cases "mkdir fs xs True True") auto
    from snoc.IH[OF rec] have
      g: "grown fs fs2 xs" and d: "r2 = None \<longrightarrow> is_dir fs2 xs" and u: "r2 \<noteq> None \<longrightarrow> fs2 = fs"
      by auto
    show ?thesis
    proof (cases r2)
      case (Some e')
      with snoc.prems om noparent rec have "fs' = fs2" "r = Some e'"
        by (auto simp: mkdir_parents[of fs "xs @ [x]"])
      with u Some show ?thesis by (simp add: grown_refl)
    next
      case None
      with d have dir: "is_dir fs2 xs" by simp
      from noparent(3) have "node_at fs ?p = None" by (simp add: path_exists_def)
      moreover have "\<not> prefix ?p xs" by (auto simp: prefix_def)
      ultimately have absent: "node_at fs2 ?p = None"
        using g unfolding grown_def by metis
      then have "os_mkdir fs2 ?p = (put fs2 ?p Dir, None)"
        using dir by (simp add: os_mkdir_def path_exists_def is_dir_def)
      then have leaf: "mkdir fs2 ?p False True = (put fs2 ?p Dir, None)"
        by (simp add: mkdir_leaf)
      from snoc.prems om noparent rec None leaf have res: "fs' = put fs2 ?p Dir" "r = None"
        by (auto simp: mkdir_parents[of fs "xs @ [x]"])
      have "grown fs fs' ?p"
        unfolding grown_def
      proof
        fix q
        from g have "node_at fs2 q = node_at fs q
            \<or> (node_at fs q = None \<and> node_at fs2 q = Some Dir \<and> prefix q xs)"
          unfolding grown_def by blast
        then show "node_at fs' q = node_at fs q
            \<or> (node_at fs q = None \<and> node_at fs' q = Some Dir \<and> prefix q ?p)"
          using absent \<open>node_at fs ?p = None\<close>
          by (cases "q = ?p") (auto simp: res node_at_put)
      qed
      moreover have "is_dir fs' ?p" by (simp add: res is_dir_def node_at_put)
      ultimately show ?thesis using res by simp
    qed
  qed
qed

lemma mkdir_success:
  "(\<forall>q. prefix q p \<longrightarrow> \<not> is_file fs q) \<Longrightarrow> snd (mkdir fs p True True) = None"
proof (induction p arbitrary: fs rule: rev_induct)
  case Nil
  have "os_mkdir fs [] = (fs, Some FileExistsError)"
    by (simp add: os_mkdir_def path_exists_root)
  then show ?case by (simp add: mkdir_parents[of fs "[]"] is_dir_root)
next
  case (snoc x xs)
  let ?p = "xs @ [x]"
  obtain fs1 r1 where om: "os_mkdir fs ?p = (fs1, r1)"
    by (cases "os_mkdir fs ?p") auto
  from snoc.prems have nf: "\<not> is_file fs ?p" and nfp: "\<not> is_file fs xs"
    and nfq: "\<forall>q. prefix q xs \<longrightarrow> \<not> is_file fs q"
    by auto
  from os_mkdir_cases[OF om]
  consider
    (exists) "r1 = Some FileExistsError" "fs1 = fs" "path_exists fs ?p"
  | (noparent) "r1 = Some FileNotFoundError" "fs1 = fs" "\<not> path_exists fs ?p"
      "node_at fs xs = None"
  | (notdir) "r1 = Some NotADirectoryError" "\<exists>t. node_at fs xs = Some (File t)"
  | (made) "r1 = None"
    by auto
  then show ?case
  proof cases
    case exists
    with nf have "is_dir fs ?p"
      by (auto simp: is_file_def is_dir_def path_exists_def split: option.splits node.splits)
    with om exists show ?thesis by (simp add: mkdir_parents[of fs "xs @ [x]"])
  next
    case notdir
    with nfp show ?thesis by (auto simp: is_file_def)
  next
    case made
    with om show ?thesis by (simp add: mkdir_parents[of fs "xs @ [x]"])
  next
    case noparent
    obtain fs2 r2 where rec: "mkdir fs xs True True = (fs2, r2)"
      by (cases "mkdir fs xs True True") auto
    from snoc.IH[OF nfq] rec have r2: "r2 = None" by simp
    from mkdir_spec[OF rec] r2 have g: "grown fs fs2 xs" and dir: "is_dir fs2 xs" by auto
    from noparent(3) have "node_at fs ?p = None" by (simp add: path_exists_def)
    moreover have "\<not> prefix ?p xs" by (auto simp: prefix_def)
    ultimately have absent: "node_at fs2 ?p = None"
      using g unfolding grown_def by metis
    then have "os_mkdir fs2 ?p = (put fs2 ?p Dir, None)"
      using dir by (simp add: os_mkdir_def path_exists_def is_dir_def)
    then have leaf: "mkdir fs2 ?p False True = (put fs2 ?p Dir, None)"
      by (simp add: mkdir_leaf)
    from om noparent rec r2 leaf show ?thesis
      by (simp add: mkdir_parents[of fs "xs @ [x]"])
  qed
qed

lemma mkdir_existing_dir: "is_dir fs p \<Longrightarrow> mkdir fs p True True = (fs, None)"
proof -
  assume d: "is_dir fs p"
  then have "os_mkdir fs p = (fs, Some FileExistsError)"
    by (simp add: os_mkdir_def is_dir_exists)
  with d show ?thesis by (simp add: mkdir_parents[of fs p])
qed

lemma write_text_ok:
  "\<not> is_dir fs p \<Longrightarrow> is_dir fs (butlast p) \<Longrightarrow> utf8_encodable t \<Longrightarrow>
     write_text fs p t = (put fs p (File t), None)"
  by (auto simp: write_text_def is_dir_def split: option.splits node.splits)

lemma write_text_None:
  "write_text fs p t = (fs', None) \<Longrightarrow>
     fs' = put fs p (File t) \<and> p \<noteq> [] \<and> is_dir fs (butlast p) \<and> utf8_encodable t"
  by (auto simp: write_text_def is_dir_def node_at_def split: option.splits node.splits if_splits)

lemma process_file_Inl:
  "output_path p i o' = Inl e \<Longrightarrow>
     process_file A B fs (p, i, o', ov, sk) = (fs, [Log_error p e], Failed)"
  by (simp add: process_file_def)

lemma process_file_skip:
  "output_path p i o' = Inr out \<Longrightarrow> path_exists fs out \<Longrightarrow> sk \<or> \<not> ov \<Longrightarrow>
     process_file A B fs (p, i, o', ov, sk) = (fs, [], Skipped)"
  by (auto simp: process_file_def)

lemma process_file_extract_fails:
  "output_path p i o' = Inr out \<Longrightarrow> \<not> (path_exists fs out \<and> (sk \<or> \<not> ov)) \<Longrightarrow>
     extract_text A B p = (evs, Inl e) \<Longrightarrow>
     process_file A B fs (p, i, o', ov, sk) = (fs, evs @ [Log_error p e], Failed)"
  by (auto simp: process_file_def)

lemma process_file_proceeds:
  "output_path p i o' = Inr out \<Longrightarrow> \<not> (path_exists fs out \<and> (sk \<or> \<not> ov)) \<Longrightarrow>
     extract_text A B p = (evs, Inr t) \<Longrightarrow>
     process_file A B fs (p, i, o', ov, sk) =
       (case mkdir fs (butlast out) True True of
          (fs1, Some e) \<Rightarrow> (fs1, evs @ [Log_error p e], Failed)
        | (fs1, None) \<Rightarrow>
            (case write_text fs1 out t of
               (fs2, Some e) \<Rightarrow> (fs2, evs @ [Log_error p e], Failed)
             | (fs2, None) \<Rightarrow> (fs2, evs, Success)))"
  by (auto simp: process_file_def)

lemma process_file_Skipped:
  assumes "process_file A B fs (p, i, o', ov, sk) = (fs', evs, Skipped)"
  shows "fs' = fs \<and> evs = []"
  using assms
  by (auto simp: process_file_def
      split: sum.splits if_splits prod.splits option.splits)

lemma process_file_Success:
  assumes "process_file A B fs (p, i, o', ov, sk) = (fs', evs, Success)"
  shows "\<exists>out t fs1. output_path p i o' = Inr out \<and> extract_text A B p = (evs, Inr t)
           \<and> \<not> (path_exists fs out \<and> (sk \<or> \<not> ov))
           \<and> mkdir fs (butlast out) True True = (fs1, None)
           \<and> write_text fs1 out t = (fs', None)"
  using assms
  by (auto simp: process_file_def
      split: sum.splits if_splits prod.splits option.splits)

lemma butlast_neq: "p \<noteq> [] \<Longrightarrow> butlast p \<noteq> p"
  by (cases p rule: rev_cases) auto

lemma process_file_Success_effect:
  assumes "process_file A B fs (p, i, o', ov, sk) = (fs', evs, Success)"
  shows "\<exists>out t. output_path p i o' = Inr out \<and> extract_text A B p = (evs, Inr t)
           \<and> utf8_encodable t
           \<and> node_at fs' out = Some (File t) \<and> is_dir fs' (butlast out)
           \<and> (\<forall>q. q \<noteq> out \<longrightarrow>
                  node_at fs' q = node_at fs q
                \<or> (node_at fs q = None \<and> node_at fs' q = Some Dir \<and> prefix q (butlast out)))"
proof -
  from process_file_Success[OF assms] obtain out t fs1 where
    out: "output_path p i o' = Inr out" and ex: "extract_text A B p = (evs, Inr t)"
    and mk: "mkdir fs (butlast out) True True = (fs1, None)"
    and wr: "write_text fs1 out t = (fs', None)"
    by blast
  from mkdir_spec[OF mk] have g: "grown fs fs1 (butlast out)" and d: "is_dir fs1 (butlast out)"
    by auto
  from write_text_None[OF wr] have fs': "fs' = put fs1 out (File t)" and ne: "out \<noteq> []"
    and enc: "utf8_encodable t"
    by auto
  have 1: "node_at fs' out = Some (File t)"
    using ne by (simp add: fs' node_at_put)
  have 2: "is_dir fs' (butlast out)"
    using d butlast_neq[OF ne] by (simp add: fs' is_dir_def node_at_put)
  have 3: "\<forall>q. q \<noteq> out \<longrightarrow>
                  node_at fs' q = node_at fs q
                \<or> (node_at fs q = None \<and> node_at fs' q = Some Dir \<and> prefix q (butlast out))"
  proof (intro allI impI)
    fix q assume "q \<noteq> out"
    then have "node_at fs' q = node_at fs1 q" by (simp add: fs' node_at_put)
    with g show "node_at fs' q = node_at fs q
                \<or> (node_at fs q = None \<and> node_at fs' q = Some Dir \<and> prefix q (butlast out))"
      unfolding grown_def by metis
  qed
  from out ex enc 1 2 3 show ?thesis by blast
qed

lemma process_file_overwrites:
  assumes out: "output_path p i o' = Inr out"
    and ns: "\<not> (path_exists fs out \<and> (sk \<or> \<not> ov))"
    and ex: "extract_text A B p = (evs, Inr t)"
    and enc: "utf8_encodable t"
    and par: "is_dir fs (butlast out)"
    and nd: "\<not> is_dir fs out"
  shows "process_file A B fs (p, i, o', ov, sk) = (put fs out (File t), evs, Success)"
proof -
  have "mkdir fs (butlast out) True True = (fs, None)"
    by (rule mkdir_existing_dir[OF par])
  moreover have "write_text fs out t = (put fs out (File t), None)"
    by (rule write_text_ok[OF nd par enc])
  ultimately show ?thesis
    by (simp add: process_file_proceeds[OF out ns ex])
qed

lemma sample_done_exists: "path_exists sample_done_fs [''out'', ''a'', ''doc.txt'']"
  by (simp add: path_exists_def node_at_def sample_done_fs_def sample_fs_def)

lemma sample_done_file: "node_at sample_done_fs [''out'', ''a'', ''doc.txt''] = Some (File [111, 108, 100])"
  by (simp add: node_at_def sample_done_fs_def sample_fs_def)

lemma sample_done_parent: "is_dir sample_done_fs [''out'', ''a'']"
  by (simp add: is_dir_def node_at_def sample_done_fs_def sample_fs_def)

lemma sample_output_doc:
  "output_path [''in'', ''a'', ''doc.pdf''] [''in''] [''out''] = Inr [''out'', ''a'', ''doc.txt'']"
  using output_path_pdf[of "[''in'']" "[''a'']" "''doc''" "[''out'']"] by simp


lemma sample_extract_doc:
  "extract_text sample_pymupdf sample_pypdf [''in'', ''a'', ''doc.pdf'']
     = ([Called_pymupdf [''in'', ''a'', ''doc.pdf''], Log_info [''in'', ''a'', ''doc.pdf''],
         Called_pypdf [''in'', ''a'', ''doc.pdf'']], Inr [79, 75])"
  by (simp add: extract_text_cases sample_pymupdf_def sample_pypdf_def strip_def isspace_def)

lemma sample_extract_b:
  "extract_text sample_pymupdf sample_pypdf [''in'', ''b.pdf'']
     = ([Called_pymupdf [''in'', ''b.pdf'']], Inl (ExtractorError ''broken''))"
  by (simp add: extract_text_cases sample_pymupdf_def)

lemma process_file_not_skipped:
  assumes "output_path p i o' = Inr out" and "\<not> (path_exists fs out \<and> (sk \<or> \<not> ov))"
    and "process_file A B fs (p, i, o', ov, sk) = (fs', evs, res)"
  shows "res \<noteq> Skipped \<and> (\<exists>evs'. evs = fst (extract_text A B p) @ evs')"
proof (cases "extract_text A B p")
  case (Pair evs0 r0)
  show ?thesis
  proof (cases r0)
    case (Inl e)
    with Pair assms show ?thesis
      by (auto simp: process_file_extract_fails[OF assms(1,2)])
  next
    case (Inr t)
    with Pair assms(3) show ?thesis
      unfolding process_file_proceeds[OF assms(1,2) Pair[unfolded Inr]]
      by (auto split: prod.splits option.splits)
  qed
qed

lemma grown_absent:
  "grown fs fs2 xs \<Longrightarrow> \<not> prefix q xs \<Longrightarrow> node_at fs2 q = node_at fs q"
  unfolding grown_def by blast

lemma process_file_writes:
  assumes out: "output_path p i o' = Inr out"
    and ns: "\<not> (path_exists fs out \<and> (sk \<or> \<not> ov))"
    and ex: "extract_text A B p = (evs, Inr t)"
    and enc: "utf8_encodable t"
    and nd: "\<not> is_dir fs out"
    and nofile: "\<forall>q. prefix q (butlast out) \<longrightarrow> \<not> is_file fs q"
  shows "\<exists>fs1. mkdir fs (butlast out) True True = (fs1, None)
           \<and> grown fs fs1 (butlast out)
           \<and> process_file A B fs (p, i, o', ov, sk) = (put fs1 out (File t), evs, Success)"
proof -
  obtain fs1 r1 where mk: "mkdir fs (butlast out) True True = (fs1, r1)"
    by (cases "mkdir fs (butlast out) True True") auto
  from mkdir_success[OF nofile] mk have r1: "r1 = None" by simp
  from mkdir_spec[OF mk] r1 have g: "grown fs fs1 (butlast out)" and d: "is_dir fs1 (butlast out)"
    by auto
  from nd have ne: "out \<noteq> []" using is_dir_root by auto
  have "\<not> prefix out (butlast out)"
    using ne by (cases out rule: rev_cases) (auto simp: prefix_def)
  from grown_absent[OF g this] have "node_at fs1 out = node_at fs out" .
  with nd have nd1: "\<not> is_dir fs1 out" by (simp add: is_dir_def)
  have wr: "write_text fs1 out t = (put fs1 out (File t), None)"
    by (rule write_text_ok[OF nd1 d enc])
  have "process_file A B fs (p, i, o', ov, sk) = (put fs1 out (File t), evs, Success)"
    by (simp add: process_file_proceeds[OF out ns ex] mk r1 wr)
  with mk r1 g show ?thesis by blast
qed

text \<open>
  Claim C2. For an item whose output path is \<open>output_file\<close>: with \<open>skip_existing\<close> set
  and the output there, the result is \<open>Skipped\<close>; otherwise, with the output there and
  \<open>overwrite\<close> not set, the result is \<open>Skipped\<close>; otherwise extraction is called first
  thing and the result is not \<open>Skipped\<close>: when extraction returns a text that UTF-8 can
  encode, the output path is no directory and no regular file lies on the way to it, the
  result is \<open>Success\<close>, the parent directory is there and the output file holds the
  text, created or overwritten; when extraction raises, the result is \<open>Failed\<close> and
  nothing is written; and no \<open>Success\<close> comes without the extracted text in the output
  file. Whenever the result is \<open>Skipped\<close>, the file system is the one before and no
  extraction library was called.
\<close>

theorem process_file_skip_policy:
  assumes "output_path pdf_path input_root output_root = Inr output_file"
  shows "(skip_existing \<and> path_exists fs output_file \<longrightarrow>
            process_file A B fs (pdf_path, input_root, output_root, overwrite, skip_existing)
              = (fs, [], Skipped))
       \<and> (\<not> (skip_existing \<and> path_exists fs output_file)
            \<and> path_exists fs output_file \<and> \<not> overwrite \<longrightarrow>
            process_file A B fs (pdf_path, input_root, output_root, overwrite, skip_existing)
              = (fs, [], Skipped))
       \<and> (\<not> (skip_existing \<and> path_exists fs output_file)
            \<and> \<not> (path_exists fs output_file \<and> \<not> overwrite) \<longrightarrow>
            (\<exists>fs' evs res.
                process_file A B fs (pdf_path, input_root, output_root, overwrite, skip_existing)
                  = (fs', fst (extract_text A B pdf_path) @ evs, res)
              \<and> hd (fst (extract_text A B pdf_path) @ evs) = Called_pymupdf pdf_path
              \<and> res \<noteq> Skipped
              \<and> (res = Success \<longrightarrow>
                    (\<exists>t. snd (extract_text A B pdf_path) = Inr t
                       \<and> node_at fs' output_file = Some (File t)))
              \<and> (\<forall>t. snd (extract_text A B pdf_path) = Inr t \<and> utf8_encodable t
                     \<and> \<not> is_dir fs output_file
                     \<and> (\<forall>q. prefix q (butlast output_file) \<longrightarrow> \<not> is_file fs q) \<longrightarrow>
                     res = Success \<and> evs = []
                   \<and> node_at fs' output_file = Some (File t)
                   \<and> is_dir fs' (butlast output_file))
              \<and> (\<forall>e. snd (extract_text A B pdf_path) = Inl e \<longrightarrow>
                     res = Failed \<and> fs' = fs \<and> evs = [Log_error pdf_path e])))
       \<and> (\<forall>fs' evs.
            process_file A B fs (pdf_path, input_root, output_root, overwrite, skip_existing)
              = (fs', evs, Skipped) \<longrightarrow> fs' = fs \<and> evs = [])"
proof (intro conjI impI allI)
  assume "skip_existing \<and> path_exists fs output_file"
  then show "process_file A B fs (pdf_path, input_root, output_root, overwrite, skip_existing)
              = (fs, [], Skipped)"
    by (simp add: process_file_skip[OF assms])
next
  assume "\<not> (skip_existing \<and> path_exists fs output_file)
            \<and> path_exists fs output_file \<and> \<not> overwrite"
  then show "process_file A B fs (pdf_path, input_root, output_root, overwrite, skip_existing)
              = (fs, [], Skipped)"
    by (simp add: process_file_skip[OF assms])
next
  let ?r = "process_file A B fs (pdf_path, input_root, output_root, overwrite, skip_existing)"
  let ?x = "extract_text A B pdf_path"
  assume "\<not> (skip_existing \<and> path_exists fs output_file)
            \<and> \<not> (path_exists fs output_file \<and> \<not> overwrite)"
  then have ns: "\<not> (path_exists fs output_file \<and> (skip_existing \<or> \<not> overwrite))"
    by blast
  obtain fs' evs res where r: "?r = (fs', evs, res)"
    by (cases ?r) auto
  from process_file_not_skipped[OF assms ns r] obtain evs' where
    res: "res \<noteq> Skipped" and evs: "evs = fst ?x @ evs'"
    by blast
  have first: "hd (fst ?x @ evs') = Called_pymupdf pdf_path"
    by (cases "A pdf_path") (simp_all add: extract_text_cases)
  have written: "res = Success \<longrightarrow>
      (\<exists>t. snd ?x = Inr t \<and> node_at fs' output_file = Some (File t))"
  proof
    assume "res = Success"
    with r have "?r = (fs', evs, Success)" by simp
    from process_file_Success_effect[OF this] assms
    show "\<exists>t. snd ?x = Inr t \<and> node_at fs' output_file = Some (File t)"
      by auto
  qed
  have writes: "\<forall>t. snd ?x = Inr t \<and> utf8_encodable t \<and> \<not> is_dir fs output_file
                     \<and> (\<forall>q. prefix q (butlast output_file) \<longrightarrow> \<not> is_file fs q) \<longrightarrow>
                     res = Success \<and> evs' = []
                   \<and> node_at fs' output_file = Some (File t)
                   \<and> is_dir fs' (butlast output_file)"
  proof (intro allI impI)
    fix t
    assume h: "snd ?x = Inr t \<and> utf8_encodable t \<and> \<not> is_dir fs output_file
                     \<and> (\<forall>q. prefix q (butlast output_file) \<longrightarrow> \<not> is_file fs q)"
    then have ex: "?x = (fst ?x, Inr t)" by (metis prod.collapse)
    from h have enc: "utf8_encodable t" and nd: "\<not> is_dir fs output_file"
      and nf: "\<forall>q. prefix q (butlast output_file) \<longrightarrow> \<not> is_file fs q"
      by auto
    from process_file_writes[OF assms ns ex enc nd nf] r
    have s: "res = Success" and e: "evs = fst ?x" by auto
    from e evs have "evs' = []" by simp
    moreover from s r have "?r = (fs', evs, Success)" by simp
    from process_file_Success_effect[OF this] assms h
    have "node_at fs' output_file = Some (File t) \<and> is_dir fs' (butlast output_file)"
      by auto
    ultimately show "res = Success \<and> evs' = []
                   \<and> node_at fs' output_file = Some (File t)
                   \<and> is_dir fs' (butlast output_file)"
      using s by simp
  qed
  have raises: "\<forall>e. snd ?x = Inl e \<longrightarrow> res = Failed \<and> fs' = fs \<and> evs' = [Log_error pdf_path e]"
  proof (intro allI impI)
    fix e assume "snd ?x = Inl e"
    then have ex: "?x = (fst ?x, Inl e)" by (metis prod.collapse)
    from process_file_extract_fails[OF assms ns ex] r evs
    show "res = Failed \<and> fs' = fs \<and> evs' = [Log_error pdf_path e]" by simp
  qed
  from r res evs first written writes raises
  show "\<exists>fs' evs res. ?r = (fs', fst ?x @ evs, res)
              \<and> hd (fst ?x @ evs) = Called_pymupdf pdf_path
              \<and> res \<noteq> Skipped
              \<and> (res = Success \<longrightarrow>
                    (\<exists>t. snd ?x = Inr t \<and> node_at fs' output_file = Some (File t)))
              \<and> (\<forall>t. snd ?x = Inr t \<and> utf8_encodable t
                     \<and> \<not> is_dir fs output_file
                     \<and> (\<forall>q. prefix q (butlast output_file) \<longrightarrow> \<not> is_file fs q) \<longrightarrow>
                     res = Success \<and> evs = []
                   \<and> node_at fs' output_file = Some (File t)
                   \<and> is_dir fs' (butlast output_file))
              \<and> (\<forall>e. snd ?x = Inl e \<longrightarrow>
                     res = Failed \<and> fs' = fs \<and> evs = [Log_error pdf_path e])"
    by blast
next
  fix fs' evs
  assume "process_file A B fs (pdf_path, input_root, output_root, overwrite, skip_existing)
              = (fs', evs, Skipped)"
  from process_file_Skipped[OF this] show "fs' = fs" "evs = []" by auto
qed

theorem process_file_skip_policy_witness:
  "process_file sample_pymupdf sample_pypdf sample_done_fs
     ([''in'', ''a'', ''doc.pdf''], [''in''], [''out''], False, True)
     = (sample_done_fs, [], Skipped)
   \<and> (\<exists>fs'. process_file sample_pymupdf sample_pypdf sample_fs
                ([''in'', ''a'', ''doc.pdf''], [''in''], [''out''], False, False)
              = (fs', fst (extract_text sample_pymupdf sample_pypdf [''in'', ''a'', ''doc.pdf'']),
                 Success)
            \<and> node_at fs' [''out'', ''a'', ''doc.txt''] = Some (File [79, 75])
            \<and> is_dir fs' [''out'', ''a''])
   \<and> (\<exists>fs'. process_file sample_pymupdf sample_pypdf sample_done_fs
                ([''in'', ''a'', ''doc.pdf''], [''in''], [''out''], True, False)
              = (fs', fst (extract_text sample_pymupdf sample_pypdf [''in'', ''a'', ''doc.pdf'']),
                 Success)
            \<and> node_at fs' [''out'', ''a'', ''doc.txt''] = Some (File [79, 75]))"
proof -
  have skip: "process_file sample_pymupdf sample_pypdf sample_done_fs
     ([''in'', ''a'', ''doc.pdf''], [''in''], [''out''], False, True)
     = (sample_done_fs, [], Skipped)"
    using process_file_skip_policy[OF sample_output_doc, of True sample_done_fs
            sample_pymupdf sample_pypdf False]
          sample_done_exists
    by simp
  have x: "snd (extract_text sample_pymupdf sample_pypdf [''in'', ''a'', ''doc.pdf''])
             = Inr [79, 75]"
    by (simp add: sample_extract_doc)
  have u: "utf8_encodable [79, 75]" by (simp add: utf8_encodable_def)
  have a: "\<not> path_exists sample_fs [''out'', ''a'', ''doc.txt'']"
    by (simp add: path_exists_def node_at_def sample_fs_def)
  then have nd: "\<not> is_dir sample_fs [''out'', ''a'', ''doc.txt'']"
    using is_dir_exists by blast
  have nf: "\<forall>q. prefix q (butlast [''out'', ''a'', ''doc.txt'']) \<longrightarrow> \<not> is_file sample_fs q"
    by (auto simp: prefix_Cons is_file_def node_at_def sample_fs_def)
  from process_file_skip_policy[OF sample_output_doc, of False sample_fs
            sample_pymupdf sample_pypdf False] a x u nd nf
  have fresh: "\<exists>fs'. process_file sample_pymupdf sample_pypdf sample_fs
                ([''in'', ''a'', ''doc.pdf''], [''in''], [''out''], False, False)
              = (fs', fst (extract_text sample_pymupdf sample_pypdf [''in'', ''a'', ''doc.pdf'']),
                 Success)
            \<and> node_at fs' [''out'', ''a'', ''doc.txt''] = Some (File [79, 75])
            \<and> is_dir fs' [''out'', ''a'']"
    by auto
  have nd': "\<not> is_dir sample_done_fs [''out'', ''a'', ''doc.txt'']"
    by (simp add: is_dir_def sample_done_file)
  have nf': "\<forall>q. prefix q (butlast [''out'', ''a'', ''doc.txt'']) \<longrightarrow> \<not> is_file sample_done_fs q"
    by (auto simp: prefix_Cons is_file_def node_at_def sample_done_fs_def sample_fs_def)
  from process_file_skip_policy[OF sample_output_doc, of False sample_done_fs
            sample_pymupdf sample_pypdf True] x u nd' nf'
  have over: "\<exists>fs'. process_file sample_pymupdf sample_pypdf sample_done_fs
                ([''in'', ''a'', ''doc.pdf''], [''in''], [''out''], True, False)
              = (fs', fst (extract_text sample_pymupdf sample_pypdf [''in'', ''a'', ''doc.pdf'']),
                 Success)
            \<and> node_at fs' [''out'', ''a'', ''doc.txt''] = Some (File [79, 75])"
    by auto
  from skip fresh over show ?thesis by blast
qed

text \<open>
  Claim C3, amended. For an item whose output path holds a regular file, with
  \<open>overwrite\<close> set and \<open>skip_existing\<close> not set, whose extraction returns a text that
  UTF-8 can encode: the result is \<open>Success\<close>, the output file holds the extracted
  text, and no other path has changed.
\<close>

theorem process_file_overwrite_fresh_text:
  assumes "output_path pdf_path input_root output_root = Inr output_file"
    and "is_file fs output_file"
    and "is_dir fs (butlast output_file)"
    and "snd (extract_text A B pdf_path) = Inr t"
    and "utf8_encodable t"
  shows "\<exists>fs'. process_file A B fs (pdf_path, input_root, output_root, True, False)
                 = (fs', fst (extract_text A B pdf_path), Success)
             \<and> node_at fs' output_file = Some (File t)
             \<and> (\<forall>q. q \<noteq> output_file \<longrightarrow> node_at fs' q = node_at fs q)"
proof -
  from assms(2) have nd: "\<not> is_dir fs output_file" and ne: "output_file \<noteq> []"
    by (auto simp: is_file_def is_dir_def node_at_def split: option.splits node.splits)
  have ex: "extract_text A B pdf_path = (fst (extract_text A B pdf_path), Inr t)"
    using assms(4) by (metis prod.collapse)
  have "process_file A B fs (pdf_path, input_root, output_root, True, False)
          = (put fs output_file (File t), fst (extract_text A B pdf_path), Success)"
    by (rule process_file_overwrites[OF assms(1) _ ex assms(5) assms(3) nd]) simp
  moreover have "node_at (put fs output_file (File t)) output_file = Some (File t)"
    using ne by (simp add: node_at_put)
  moreover have "\<forall>q. q \<noteq> output_file \<longrightarrow> node_at (put fs output_file (File t)) q = node_at fs q"
    by (simp add: node_at_put)
  ultimately show ?thesis by blast
qed

theorem process_file_overwrite_fresh_text_witness:
  "\<exists>fs'. process_file sample_pymupdf sample_pypdf sample_done_fs
            ([''in'', ''a'', ''doc.pdf''], [''in''], [''out''], True, False)
            = (fs', fst (extract_text sample_pymupdf sample_pypdf [''in'', ''a'', ''doc.pdf'']),
               Success)
        \<and> node_at fs' [''out'', ''a'', ''doc.txt''] = Some (File [79, 75])"
proof -
  have f: "is_file sample_done_fs [''out'', ''a'', ''doc.txt'']"
    by (simp add: is_file_def sample_done_file)
  have d: "is_dir sample_done_fs (butlast [''out'', ''a'', ''doc.txt''])"
    by (simp add: sample_done_parent)
  have e: "snd (extract_text sample_pymupdf sample_pypdf [''in'', ''a'', ''doc.pdf''])
             = Inr [79, 75]"
    by (simp add: sample_extract_doc)
  have u: "utf8_encodable [79, 75]"
    by (simp add: utf8_encodable_def)
  from process_file_overwrite_fresh_text[OF sample_output_doc f d e u]
  show ?thesis by blast
qed

theorem process_file_overwrite_skipped_counterexample:
  "node_at sample_done_fs [''out'', ''a'', ''doc.txt''] = Some (File [111, 108, 100])
   \<and> snd (extract_text sample_pymupdf sample_pypdf [''in'', ''a'', ''doc.pdf'']) = Inr [79, 75]
   \<and> process_file sample_pymupdf sample_pypdf sample_done_fs
        ([''in'', ''a'', ''doc.pdf''], [''in''], [''out''], True, True)
        = (sample_done_fs, [], Skipped)"
  by (simp add: sample_done_file sample_extract_doc
        process_file_skip[OF sample_output_doc sample_done_exists])

text \<open>
  Claim C10. When the extraction of an item raises, the worker leaves the file
  system as it was and does not report \<open>Success\<close>; when the item was not skipped, the
  exception is logged and the result is \<open>Failed\<close>. A worker that changed the file
  system had its text extracted before.
\<close>

theorem process_file_failed_extraction_no_write:
  assumes "process_file A B fs (pdf_path, input_root, output_root, overwrite, skip_existing)
             = (fs', evs, res)"
  shows "(\<forall>e. snd (extract_text A B pdf_path) = Inl e \<longrightarrow>
            fs' = fs \<and> res \<noteq> Success
          \<and> (Called_pymupdf pdf_path \<in> set evs \<longrightarrow>
                res = Failed \<and> Log_error pdf_path e \<in> set evs))
       \<and> (fs' \<noteq> fs \<longrightarrow>
            (\<exists>t. snd (extract_text A B pdf_path) = Inr t) \<and> Called_pymupdf pdf_path \<in> set evs)"
proof (cases "output_path pdf_path input_root output_root")
  case (Inl e0)
  with assms show ?thesis by (auto simp: process_file_Inl)
next
  case (Inr out)
  show ?thesis
  proof (cases "path_exists fs out \<and> (skip_existing \<or> \<not> overwrite)")
    case True
    then have "process_file A B fs (pdf_path, input_root, output_root, overwrite, skip_existing)
                 = (fs, [], Skipped)"
      using process_file_skip[OF Inr] by blast
    with assms show ?thesis by auto
  next
    case False
    obtain evs0 r0 where ex: "extract_text A B pdf_path = (evs0, r0)"
      by (cases "extract_text A B pdf_path") auto
    have called: "Called_pymupdf pdf_path \<in> set evs0"
      using ex by (cases "A pdf_path") (auto simp: extract_text_cases split: if_splits)
    show ?thesis
    proof (cases r0)
      case (Inl e)
      from process_file_extract_fails[OF Inr False ex[unfolded Inl]] assms ex Inl
      show ?thesis by auto
    next
      case (Inr t)
      from process_file_not_skipped[OF \<open>output_path pdf_path input_root output_root = Inr out\<close>
             False assms] ex called
      have "Called_pymupdf pdf_path \<in> set evs" by auto
      with ex Inr show ?thesis by auto
    qed
  qed
qed

theorem process_file_failed_extraction_no_write_witness:
  "fst (process_file sample_pymupdf sample_pypdf sample_done_fs
          ([''in'', ''b.pdf''], [''in''], [''out''], True, False)) = sample_done_fs
   \<and> node_at (fst (process_file sample_pymupdf sample_pypdf sample_done_fs
          ([''in'', ''b.pdf''], [''in''], [''out''], True, False))) [''out'', ''b.txt'']
       = Some (File [111, 108, 100])"
proof -
  obtain fs' evs res where r:
    "process_file sample_pymupdf sample_pypdf sample_done_fs
       ([''in'', ''b.pdf''], [''in''], [''out''], True, False) = (fs', evs, res)"
    by (metis prod_cases3)
  have e: "snd (extract_text sample_pymupdf sample_pypdf [''in'', ''b.pdf''])
             = Inl (ExtractorError ''broken'')"
    by (simp add: sample_extract_b)
  from process_file_failed_extraction_no_write[OF r] e have "fs' = sample_done_fs"
    by blast
  moreover have "node_at sample_done_fs [''out'', ''b.txt''] = Some (File [111, 108, 100])"
    by (simp add: node_at_def sample_done_fs_def sample_fs_def)
  ultimately show ?thesis using r by simp
qed

lemma process_file_fresh:
  assumes out: "output_path p i o' = Inr out"
    and absent: "\<not> path_exists fs out"
    and ex: "extract_text A B p = (evs, Inr t)"
    and enc: "utf8_encodable t"
    and nofile: "\<forall>q. prefix q (butlast out) \<longrightarrow> \<not> is_file fs q"
  shows "\<exists>fs1. mkdir fs (butlast out) True True = (fs1, None)
           \<and> grown fs fs1 (butlast out)
           \<and> process_file A B fs (p, i, o', ov, sk) = (put fs1 out (File t), evs, Success)"
proof -
  obtain fs1 r1 where mk: "mkdir fs (butlast out) True True = (fs1, r1)"
    by (cases "mkdir fs (butlast out) True True") auto
  from mkdir_success[OF nofile] mk have r1: "r1 = None" by simp
  from mkdir_spec[OF mk] r1 have g: "grown fs fs1 (butlast out)" and d: "is_dir fs1 (butlast out)"
    by auto
  from absent have ne: "out \<noteq> []" and none: "node_at fs out = None"
    by (auto simp: path_exists_def node_at_def)
  have "\<not> prefix out (butlast out)"
    using ne by (cases out rule: rev_cases) (auto simp: prefix_def)
  from grown_absent[OF g this] none have "node_at fs1 out = None" by simp
  then have nd: "\<not> is_dir fs1 out" by (simp add: is_dir_def)
  have wr: "write_text fs1 out t = (put fs1 out (File t), None)"
    by (rule write_text_ok[OF nd d enc])
  have ns: "\<not> (path_exists fs out \<and> (sk \<or> \<not> ov))" using absent by simp
  have "process_file A B fs (p, i, o', ov, sk) = (put fs1 out (File t), evs, Success)"
    by (simp add: process_file_proceeds[OF out ns ex] mk r1 wr)
  with mk r1 g show ?thesis by blast
qed

lemma sample_fresh:
  "\<exists>fs'. process_file sample_pymupdf sample_pypdf sample_fs
            ([''in'', ''a'', ''doc.pdf''], [''in''], [''out''], False, False)
          = (fs', [Called_pymupdf [''in'', ''a'', ''doc.pdf''], Log_info [''in'', ''a'', ''doc.pdf''],
                   Called_pypdf [''in'', ''a'', ''doc.pdf'']], Success)"
proof -
  have a: "\<not> path_exists sample_fs [''out'', ''a'', ''doc.txt'']"
    by (simp add: path_exists_def node_at_def sample_fs_def)
  have u: "utf8_encodable [79, 75]"
    by (simp add: utf8_encodable_def)
  have n: "\<forall>q. prefix q (butlast [''out'', ''a'', ''doc.txt'']) \<longrightarrow> \<not> is_file sample_fs q"
    by (auto simp: prefix_Cons is_file_def node_at_def sample_fs_def)
  from process_file_fresh[OF sample_output_doc a sample_extract_doc u n]
  show ?thesis by blast
qed

text \<open>
  Claim C8. The output path is a function of the input path: the input
  \<open>input_root/rel/stem.pdf\<close> goes to \<open>output_root/rel/stem.txt\<close> (a name that is
  only \<open>.pdf\<close> has no suffix for pathlib and becomes \<open>.pdf.txt\<close>). Every file that the
  search finds has this form. After a \<open>Success\<close> the parent of the output file is a
  directory, the output file is a regular file, and apart from it the file system
  differs from the one before only by directories, absent before, on the way to that
  parent.
\<close>

theorem output_path_mirrors_tree:
  "output_path (input_root @ rel @ [stem @ ''.pdf'']) input_root output_root
     = Inr (output_root @ rel @ [if stem = [] then ''.pdf.txt'' else stem @ ''.txt''])
   \<and> (\<forall>p \<in> set (rglob_pdf fs input_root). \<exists>rel stem. p = input_root @ rel @ [stem @ ''.pdf''])
   \<and> (\<forall>fs' evs.
         process_file A B fs
           (input_root @ rel @ [stem @ ''.pdf''], input_root, output_root, overwrite, skip_existing)
           = (fs', evs, Success) \<longrightarrow>
           is_dir fs' (output_root @ rel)
         \<and> is_file fs' (output_root @ rel @ [if stem = [] then ''.pdf.txt'' else stem @ ''.txt''])
         \<and> (\<forall>q. q \<noteq> output_root @ rel @ [if stem = [] then ''.pdf.txt'' else stem @ ''.txt''] \<longrightarrow>
                node_at fs' q = node_at fs q
              \<or> (node_at fs q = None \<and> node_at fs' q = Some Dir
                  \<and> prefix q (output_root @ rel))))"
proof (intro conjI ballI allI impI)
  show "output_path (input_root @ rel @ [stem @ ''.pdf'']) input_root output_root
     = Inr (output_root @ rel @ [if stem = [] then ''.pdf.txt'' else stem @ ''.txt''])"
    by (rule output_path_pdf)
next
  fix p assume "p \<in> set (rglob_pdf fs input_root)"
  then show "\<exists>rel stem. p = input_root @ rel @ [stem @ ''.pdf'']"
    by (rule rglob_pdf_member)
next
  fix fs' evs
  let ?out = "output_root @ rel @ [if stem = [] then ''.pdf.txt'' else stem @ ''.txt'']"
  assume "process_file A B fs
           (input_root @ rel @ [stem @ ''.pdf''], input_root, output_root, overwrite, skip_existing)
           = (fs', evs, Success)"
  from process_file_Success_effect[OF this] obtain out t where
    o: "output_path (input_root @ rel @ [stem @ ''.pdf'']) input_root output_root = Inr out"
    and f: "node_at fs' out = Some (File t)" and d: "is_dir fs' (butlast out)"
    and fr: "\<forall>q. q \<noteq> out \<longrightarrow>
                  node_at fs' q = node_at fs q
                \<or> (node_at fs q = None \<and> node_at fs' q = Some Dir \<and> prefix q (butlast out))"
    by blast
  from o have out: "out = ?out" by (simp add: output_path_pdf)
  have bl: "butlast ?out = output_root @ rel"
    by (simp add: butlast_append)
  from d show "is_dir fs' (output_root @ rel)" unfolding out bl .
  from f show "is_file fs' ?out" unfolding out by (simp add: is_file_def)
  fix q assume "q \<noteq> ?out"
  with fr show "node_at fs' q = node_at fs q
              \<or> (node_at fs q = None \<and> node_at fs' q = Some Dir
                  \<and> prefix q (output_root @ rel))"
    unfolding out bl by blast
qed

theorem output_path_mirrors_tree_witness:
  "output_path [''root'', ''a'', ''b'', ''doc.pdf''] [''root''] [''out'']
     = Inr [''out'', ''a'', ''b'', ''doc.txt'']
   \<and> (\<exists>fs' evs. process_file sample_pymupdf sample_pypdf sample_fs
            ([''in'', ''a'', ''doc.pdf''], [''in''], [''out''], False, False) = (fs', evs, Success)
          \<and> is_dir fs' [''out'', ''a''] \<and> is_file fs' [''out'', ''a'', ''doc.txt''])"
proof -
  from output_path_mirrors_tree[of "[''root'']" "[''a'', ''b'']" "''doc''" "[''out'']"]
  have 1: "output_path [''root'', ''a'', ''b'', ''doc.pdf''] [''root''] [''out'']
     = Inr [''out'', ''a'', ''b'', ''doc.txt'']"
    by simp
  from sample_fresh obtain fs' evs where
    s: "process_file sample_pymupdf sample_pypdf sample_fs
          ([''in'', ''a'', ''doc.pdf''], [''in''], [''out''], False, False) = (fs', evs, Success)"
    by blast
  from output_path_mirrors_tree[of "[''in'']" "[''a'']" "''doc''" "[''out'']" sample_fs
         sample_pymupdf sample_pypdf False False] s
  have "is_dir fs' [''out'', ''a''] \<and> is_file fs' [''out'', ''a'', ''doc.txt'']"
    by simp
  with 1 s show ?thesis by blast
qed


lemma process_directory_empty_list:
  "rglob_pdf fs input_dir = [] \<Longrightarrow>
     process_directory A B choices fs input_dir output_dir workers overwrite skip_existing
       = Inr (fs, [], None)"
  by (simp add: process_directory_def)







text \<open>
  Claim C6, amended. When no file is found, \<open>process_directory\<close> returns at once,
  whatever the worker count: no pool is made, no worker runs, the file system stays as it
  is, and no summary is produced (the counters do not exist yet).
\<close>

theorem process_directory_no_files:
  assumes "rglob_pdf fs input_dir = []"
  shows "process_directory A B choices fs input_dir output_dir workers overwrite skip_existing
       = Inr (fs, [], None)"
  using assms by (rule process_directory_empty_list)

lemma rglob_not_dir: "\<not> is_dir fs d \<Longrightarrow> rglob_pdf fs d = []"
  by (simp add: rglob_pdf_def)

lemma sample_notes_not_dir: "\<not> is_dir sample_fs [''in'', ''notes.txt'']"
  by (simp add: is_dir_def node_at_def sample_fs_def)

theorem process_directory_no_files_witness:
  "process_directory sample_pymupdf sample_pypdf [] sample_fs [''in'', ''notes.txt''] [''out'']
     0 False False = Inr (sample_fs, [], None)"
proof -
  have "rglob_pdf sample_fs [''in'', ''notes.txt''] = []"
    by (rule rglob_not_dir[OF sample_notes_not_dir])
  from process_directory_no_files[OF this] show ?thesis .
qed

theorem process_directory_no_files_counterexample:
  "rglob_pdf [] [''in''] = []
   \<and> process_directory sample_pymupdf sample_pypdf [] [] [''in''] [''out''] 4 False False
       = Inr ([], [], None)
   \<and> process_directory sample_pymupdf sample_pypdf [] [] [''in''] [''out''] 4 False False
       \<noteq> Inr ([], [], Some \<lparr>total = 0, success = 0, skipped = 0, failed = 0\<rparr>)"
proof -
  have "rglob_pdf [] [''in''] = []"
    by (simp add: rglob_pdf_def is_dir_def node_at_def)
  then show ?thesis by (simp add: process_directory_empty_list)
qed

lemma main_input_not_dir:
  assumes "path_exists fs input_dir" and "\<not> is_dir fs input_dir"
    and "mkdir fs output_dir True True = (fs1, None)"
  shows "main A B choices fs (Some input_dir) (Some output_dir) workers overwrite skip_existing
           = Returned (fs1, [], None)"
proof -
  from mkdir_spec[OF assms(3)] have "grown fs fs1 output_dir" by simp
  with assms(1,2) have "\<not> is_dir fs1 input_dir"
    unfolding grown_def is_dir_def path_exists_def by metis
  then have "rglob_pdf fs1 input_dir = []" by (rule rglob_not_dir)
  then have "process_directory A B choices fs1 input_dir output_dir workers overwrite skip_existing
               = Inr (fs1, [], None)"
    by (rule process_directory_empty_list)
  with assms show ?thesis by (simp add: main_def)
qed

lemma sample_notes_exists: "path_exists sample_fs [''in'', ''notes.txt'']"
  by (simp add: path_exists_def node_at_def sample_fs_def)

lemma sample_mkdir_out: "mkdir sample_fs [''out''] True True = (put sample_fs [''out''] Dir, None)"
proof -
  have "os_mkdir sample_fs [''out''] = (put sample_fs [''out''] Dir, None)"
    by (simp add: os_mkdir_def path_exists_def node_at_def sample_fs_def)
  then show ?thesis by (simp add: mkdir_parents[of sample_fs "[''out'']"])
qed

text \<open>
  Claim C7. In the sample tree \<open>in/notes.txt\<close> exists and is a regular file. Given
  as the input root, \<open>main\<close> of the parallel converter does not exit: it makes the
  output directory and returns from a run that found nothing. The interactive mode of the
  same program and the sequential converter both leave with status 1 on this input.
\<close>

theorem main_runs_on_regular_file:
  "is_file sample_fs [''in'', ''notes.txt'']
   \<and> main sample_pymupdf sample_pypdf [] sample_fs (Some [''in'', ''notes.txt''])
         (Some [''out'']) 4 False False
       = Returned (put sample_fs [''out''] Dir, [], None)
   \<and> interactive_mode sample_pymupdf sample_pypdf [] sample_fs [''in'', ''notes.txt''] [''out'']
         ''y'' 4 = Exit 1
   \<and> pdf_to_text_process_directory sample_pymupdf sample_pypdf sample_fs
         [''in'', ''notes.txt''] [''out''] = Exit 1"
proof (intro conjI)
  show "is_file sample_fs [''in'', ''notes.txt'']"
    by (simp add: is_file_def node_at_def sample_fs_def)
  show "main sample_pymupdf sample_pypdf [] sample_fs (Some [''in'', ''notes.txt''])
         (Some [''out'']) 4 False False
       = Returned (put sample_fs [''out''] Dir, [], None)"
    by (rule main_input_not_dir[OF sample_notes_exists sample_notes_not_dir sample_mkdir_out])
  show "interactive_mode sample_pymupdf sample_pypdf [] sample_fs [''in'', ''notes.txt''] [''out'']
         ''y'' 4 = Exit 1"
    using sample_notes_not_dir by (simp add: interactive_mode_def)
  show "pdf_to_text_process_directory sample_pymupdf sample_pypdf sample_fs
         [''in'', ''notes.txt''] [''out''] = Exit 1"
    using sample_notes_not_dir by (simp add: pdf_to_text_process_directory_def)
qed

theorem main_runs_on_regular_file_witness:
  "main sample_pymupdf sample_pypdf [] sample_fs (Some [''in'', ''notes.txt''])
     (Some [''out'']) 4 False False \<noteq> Exit 1
   \<and> pdf_to_text_process_directory sample_pymupdf sample_pypdf sample_fs
         [''in'', ''notes.txt''] [''out''] = Exit 1"
  using main_runs_on_regular_file by simp
















end
